theory Spec2Isabelle
  imports Main "HOL-Library.Word"
begin

section \<open>Arrays, errors and loops\<close>

text \<open>
  A frame is a numpy array of shape \<open>(height, width, 3)\<close> and dtype uint8, as
  \<open>cv2.imread\<close> and \<open>VideoCapture.read\<close> deliver it: a grid of BGR byte triples.
  The shape is kept beside the rows because an array without rows still has a width.
\<close>

type_synonym pixel = "8 word \<times> 8 word \<times> 8 word"

record ndarray =
  height :: nat
  width :: nat
  rows :: "pixel list list"

definition valid_array :: "ndarray \<Rightarrow> bool" where
  "valid_array a \<longleftrightarrow>
     length (rows a) = height a \<and> list_all (\<lambda>r. length r = width a) (rows a)"

text \<open>
  The texts the program shows or raises are Japanese string literals; each one is a
  constructor here, named by its meaning.
\<close>

datatype message =
    Images_not_loaded            \<comment> \<open>ValueError text of process_and_capture_composite_image\<close>
  | No_image_to_save             \<comment> \<open>ValueError text of save_image\<close>
  | Title_image_load_error
  | Logo_not_found
  | Title_not_ready
  | Initial_image_missing
  | Camera_stopped
  | Live_feed_resumed
  | Live_feed_started
  | Title_camera_error
  | Camera_start_failed
  | Frame_grab_failed
  | Compose_needs_live_feed      \<comment> \<open>status text of the guard in handle_capture_and_composite\<close>
  | Compositing
  | Compositing_done
  | Title_composite_error
  | Composite_failed
  | Title_process_error
  | Nothing_to_save_hint         \<comment> \<open>status text of the guard in handle_save_image\<close>
  | Saving string
  | Saved string
  | Title_save_error
  | File_write_failed
  | Ready
  | Button_start
  | Button_stop
  | Button_resume

datatype error = ValueError message | ZeroDivisionError | IndexError | Cv2Error

primrec and_then :: "error + 'a \<Rightarrow> ('a \<Rightarrow> error + 'b) \<Rightarrow> error + 'b" where
  "and_then (Inl e) f = Inl e"
| "and_then (Inr v) f = f v"

text \<open>\<open>a[y, x]\<close> for indices that are not negative: out of the shape it raises.\<close>

definition getitem :: "ndarray \<Rightarrow> nat \<Rightarrow> nat \<Rightarrow> error + pixel" where
  "getitem a y x =
     (if y < height a \<and> x < width a then Inr (rows a ! y ! x) else Inl IndexError)"

definition setitem :: "ndarray \<Rightarrow> nat \<Rightarrow> nat \<Rightarrow> pixel \<Rightarrow> error + ndarray" where
  "setitem a y x p =
     (if y < height a \<and> x < width a
      then Inr (a\<lparr>rows := (rows a)[y := (rows a ! y)[x := p]]\<rparr>)
      else Inl IndexError)"

text \<open>Python's \<open>%\<close> on ints that are not negative.\<close>

definition py_mod :: "nat \<Rightarrow> nat \<Rightarrow> error + nat" where
  "py_mod a b = (if b = 0 then Inl ZeroDivisionError else Inr (a mod b))"

text \<open>A \<open>for\<close> loop over a list of indices; an exception in the body leaves the loop.\<close>

primrec for_each :: "'i list \<Rightarrow> ('i \<Rightarrow> 's \<Rightarrow> error + 's) \<Rightarrow> 's \<Rightarrow> error + 's" where
  "for_each [] body s = Inr s"
| "for_each (i # rest) body s = and_then (body i s) (for_each rest body)"

section \<open>The white-pixel substitution of process_and_capture_composite_image\<close>

definition white :: pixel where
  "white = (255, 255, 255)"

text \<open>
  The body of the inner loop (model.py, lines 105 to 109): the pixel is read from the
  array being written, and the two moduli are evaluated row first.
\<close>

definition replace_pixel :: "ndarray \<Rightarrow> nat \<Rightarrow> nat \<Rightarrow> ndarray \<Rightarrow> error + ndarray" where
  "replace_pixel capture_img x y composite_img =
     and_then (getitem composite_img y x) (\<lambda>bgr.
       if bgr = white then
         and_then (py_mod y (height capture_img)) (\<lambda>cy.
         and_then (py_mod x (width capture_img)) (\<lambda>cx.
         and_then (getitem capture_img cy cx) (\<lambda>p.
           setitem composite_img y x p)))
       else Inr composite_img)"

text \<open>The two loops (lines 103 and 104): columns outside, rows inside.\<close>

definition composite_loop :: "ndarray \<Rightarrow> ndarray \<Rightarrow> error + ndarray" where
  "composite_loop capture_img composite_img =
     for_each [0..<width composite_img] (\<lambda>x.
       for_each [0..<height composite_img] (\<lambda>y.
         replace_pixel capture_img x y)) composite_img"

section \<open>The store: arrays and capture objects behind references\<close>

text \<open>
  numpy arrays and \<open>cv2.VideoCapture\<close> objects are shared mutable objects, so the fields
  of the model hold references into a store. \<open>copy()\<close>, \<open>read()\<close> and \<open>cv2.flip\<close> make
  a new array; \<open>cv2.line\<close> and \<open>a[y, x] = p\<close> write into an existing one.
  A capture object is a device that is open or not, and the frames its next reads
  will deliver (\<open>None\<close> for a read that returns \<open>ret = False\<close>).
  The disk is the list of files \<open>cv2.imwrite\<close> has written.
\<close>

record VideoCapture =
  opened :: bool
  feed :: "ndarray option list"

record store =
  arrays :: "ndarray list"
  captures :: "VideoCapture list"
  disk :: "(string \<times> ndarray) list"

definition new_array :: "ndarray \<Rightarrow> store \<Rightarrow> nat \<times> store" where
  "new_array a s = (length (arrays s), s\<lparr>arrays := arrays s @ [a]\<rparr>)"

definition new_capture :: "VideoCapture \<Rightarrow> store \<Rightarrow> nat \<times> store" where
  "new_capture v s = (length (captures s), s\<lparr>captures := captures s @ [v]\<rparr>)"

definition read_capture :: "VideoCapture \<Rightarrow> ndarray option \<times> VideoCapture" where
  "read_capture v =
     (if \<not> opened v then (None, v)
      else case feed v of
             [] \<Rightarrow> (None, v)
           | f # rest \<Rightarrow> (f, v\<lparr>feed := rest\<rparr>))"

definition release :: "VideoCapture \<Rightarrow> VideoCapture" where
  "release v = v\<lparr>opened := False\<rparr>"

text \<open>\<open>cv2.flip(img, flipCode=1)\<close>: a new array, each row reversed.\<close>

definition flip1 :: "ndarray \<Rightarrow> ndarray" where
  "flip1 a = a\<lparr>rows := map rev (rows a)\<rparr>"

text \<open>
  \<open>cv2.cvtColor(img, cv2.COLOR_BGR2RGB)\<close>: a new array with the first and third
  channel exchanged; OpenCV rejects an empty image.
\<close>

definition cvtColor_BGR2RGB :: "ndarray \<Rightarrow> error + ndarray" where
  "cvtColor_BGR2RGB a =
     (if height a = 0 \<or> width a = 0 then Inl Cv2Error
      else Inr (a\<lparr>rows := map (map (\<lambda>(b, g, r). (r, g, b))) (rows a)\<rparr>))"

text \<open>
  \<open>cv2.line(img, pt1, pt2, color, thickness)\<close> draws into \<open>img\<close>. Which pixels a thick
  line covers is decided inside OpenCV, so the drawing is a parameter of the model.
\<close>

type_synonym line_fn = "ndarray \<Rightarrow> int \<times> int \<Rightarrow> int \<times> int \<Rightarrow> pixel \<Rightarrow> nat \<Rightarrow> ndarray"

definition draw_line :: "line_fn \<Rightarrow> nat \<Rightarrow> int \<times> int \<Rightarrow> int \<times> int \<Rightarrow> pixel \<Rightarrow> nat \<Rightarrow> store \<Rightarrow> store" where
  "draw_line line img pt1 pt2 color thickness s =
     s\<lparr>arrays := (arrays s)[img := line (arrays s ! img) pt1 pt2 color thickness]\<rparr>"

section \<open>ImageProcessingModel (app/model.py)\<close>

record ImageProcessingModel =
  current_live_frame :: "nat option"
  captured_composite_image :: "nat option"
  cap :: "nat option"
  google_img :: "nat option"

definition init_model :: ImageProcessingModel where
  "init_model = \<lparr>current_live_frame = None, captured_composite_image = None,
                 cap = None, google_img = None\<rparr>"

definition set_google_image :: "nat \<Rightarrow> ImageProcessingModel \<Rightarrow> ImageProcessingModel" where
  "set_google_image img_data m = m\<lparr>google_img := Some img_data\<rparr>"

definition set_camera_object :: "nat \<Rightarrow> ImageProcessingModel \<Rightarrow> ImageProcessingModel" where
  "set_camera_object cap_object m = m\<lparr>cap := Some cap_object\<rparr>"

definition is_camera_open :: "ImageProcessingModel \<Rightarrow> store \<Rightarrow> bool" where
  "is_camera_open m s =
     (case cap m of None \<Rightarrow> False | Some c \<Rightarrow> opened (captures s ! c))"

definition stop_capture :: "ImageProcessingModel \<Rightarrow> store \<Rightarrow> ImageProcessingModel \<times> store" where
  "stop_capture m s =
     (case cap m of
        None \<Rightarrow> (m, s)
      | Some c \<Rightarrow>
          if opened (captures s ! c)
          then (m\<lparr>cap := None\<rparr>, s\<lparr>captures := (captures s)[c := release (captures s ! c)]\<rparr>)
          else (m, s))"

text \<open>
  get_frame_for_display returns the reference of the preview array, or \<open>None\<close>.
  The raw frame is stored in the field first; the drawing then works on \<open>frame.copy()\<close>.
\<close>

definition get_frame_for_display ::
    "line_fn \<Rightarrow> ImageProcessingModel \<Rightarrow> store \<Rightarrow> nat option \<times> ImageProcessingModel \<times> store" where
  "get_frame_for_display line m s =
     (if \<not> is_camera_open m s then (None, m, s)
      else case cap m of
        None \<Rightarrow> (None, m, s)
      | Some c \<Rightarrow>
          let (ret, v) = read_capture (captures s ! c);
              s0 = s\<lparr>captures := (captures s)[c := v]\<rparr>
          in case ret of
               None \<Rightarrow> (None, m, s0)
             | Some raw \<Rightarrow>
                 let (frame, s1) = new_array raw s0;
                     m1 = m\<lparr>current_live_frame := Some frame\<rparr>;
                     (img, s2) = new_array (arrays s1 ! frame) s1;
                     h = int (height (arrays s2 ! img));
                     w = int (width (arrays s2 ! img));
                     center = (w div 2, h div 2);
                     s3 = draw_line line img (fst center, snd center - 80)
                            (fst center, snd center + 80) (0, 0, 255) 3 s2;
                     s4 = draw_line line img (fst center - 80, snd center)
                            (fst center + 80, snd center) (0, 0, 255) 3 s3;
                     (img', s5) = new_array (flip1 (arrays s4 ! img)) s4
                 in (Some img', m1, s5))"

text \<open>
  process_and_capture_composite_image: the result is the error raised or the reference
  of the composite; the model and the store are those the call leaves behind. The loop
  writes into the fresh copy of the template, and the field is assigned after the loop.
  When the loop raises, the copy is a local array nothing refers to any more; it stays
  in the store as it was made.
\<close>

definition process_and_capture_composite_image ::
    "ImageProcessingModel \<Rightarrow> store \<Rightarrow> (error + nat) \<times> ImageProcessingModel \<times> store" where
  "process_and_capture_composite_image m s =
     (case (current_live_frame m, google_img m) of
        (Some capture_img, Some g) \<Rightarrow>
          let (composite_img, s1) = new_array (arrays s ! g) s
          in (case composite_loop (arrays s1 ! capture_img) (arrays s1 ! composite_img) of
                Inl e \<Rightarrow> (Inl e, m, s1)
              | Inr done \<Rightarrow>
                  (Inr composite_img,
                   m\<lparr>captured_composite_image := Some composite_img\<rparr>,
                   s1\<lparr>arrays := (arrays s1)[composite_img := done]\<rparr>))
      | _ \<Rightarrow> (Inl (ValueError Images_not_loaded), m, s))"

definition get_captured_image :: "ImageProcessingModel \<Rightarrow> nat option" where
  "get_captured_image m = captured_composite_image m"

text \<open>
  save_image: what \<open>cv2.imwrite(file_path, img)\<close> does with a path and an image is
  decided by OpenCV's codecs and the file system, so it is the parameter \<open>imwrite\<close>:
  it raises (\<open>cv2.error\<close>, for a path without a known extension or an empty image),
  or returns \<open>False\<close>, or writes the file and returns \<open>True\<close>.
\<close>

type_synonym imwrite_fn = "string \<Rightarrow> ndarray \<Rightarrow> error + bool"

definition save_image ::
    "imwrite_fn \<Rightarrow> string \<Rightarrow> ImageProcessingModel \<Rightarrow> store \<Rightarrow> (error + bool) \<times> store" where
  "save_image imwrite file_path m s =
     (case captured_composite_image m of
        None \<Rightarrow> (Inl (ValueError No_image_to_save), s)
      | Some img \<Rightarrow>
          (case imwrite file_path (arrays s ! img) of
             Inl e \<Rightarrow> (Inl e, s)
           | Inr written \<Rightarrow>
               if written
               then (Inr True, s\<lparr>disk := disk s @ [(file_path, arrays s ! img)]\<rparr>)
               else (Inr False, s)))"

section \<open>MainWindow (app/view.py), as far as the controller drives it\<close>

text \<open>
  The window is kept as what it shows: the status text, the text of the toggle button,
  the picture in the central label (\<open>None\<close> for the placeholder text) and the error
  boxes shown so far, each with its title.
\<close>

record MainWindow =
  status_label :: message
  capture_toggle_button :: message
  image_label :: "ndarray option"
  message_boxes :: "(message \<times> message) list"

definition init_view :: MainWindow where
  "init_view = \<lparr>status_label = Ready, capture_toggle_button = Button_start,
                image_label = None, message_boxes = []\<rparr>"

definition display_frame :: "ndarray option \<Rightarrow> MainWindow \<Rightarrow> MainWindow" where
  "display_frame pixmap v = v\<lparr>image_label := pixmap\<rparr>"

definition show_status_message :: "message \<Rightarrow> MainWindow \<Rightarrow> MainWindow" where
  "show_status_message msg v = v\<lparr>status_label := msg\<rparr>"

definition set_toggle_button_text :: "message \<Rightarrow> MainWindow \<Rightarrow> MainWindow" where
  "set_toggle_button_text t v = v\<lparr>capture_toggle_button := t\<rparr>"

definition show_error_message :: "message \<Rightarrow> message \<Rightarrow> MainWindow \<Rightarrow> MainWindow" where
  "show_error_message title msg v = v\<lparr>message_boxes := message_boxes v @ [(title, msg)]\<rparr>"

section \<open>Interface (app/interface.py)\<close>

text \<open>
  \<open>timer_active\<close> is \<open>QTimer.isActive()\<close>. A handler returns the exception that leaves it
  uncaught, if any, with the state it leaves behind.
\<close>

record Interface =
  view :: MainWindow
  model :: ImageProcessingModel
  timer_active :: bool
  is_live_feed :: bool

text \<open>\<open>imread\<close> is what \<open>cv2.imread('images/google.png')\<close> returned.\<close>

definition load_initial_images :: "ndarray option \<Rightarrow> Interface \<Rightarrow> store \<Rightarrow> Interface \<times> store" where
  "load_initial_images imread i s =
     (case imread of
        None \<Rightarrow> (i\<lparr>view := show_error_message Title_image_load_error Logo_not_found (view i)\<rparr>, s)
      | Some a \<Rightarrow>
          let (google, s1) = new_array a s
          in (i\<lparr>model := set_google_image google (model i)\<rparr>, s1))"

definition init_interface :: "ndarray option \<Rightarrow> store \<Rightarrow> Interface \<times> store" where
  "init_interface imread s =
     load_initial_images imread
       \<lparr>view = init_view, model = init_model, timer_active = False, is_live_feed = False\<rparr> s"

definition start_live_feed :: "Interface \<Rightarrow> Interface" where
  "start_live_feed i =
     i\<lparr>is_live_feed := True, timer_active := True,
       view := set_toggle_button_text Button_stop (view i)\<rparr>"

definition stop_live_feed :: "Interface \<Rightarrow> Interface" where
  "stop_live_feed i =
     i\<lparr>timer_active := False, is_live_feed := False,
       view := set_toggle_button_text Button_resume (view i)\<rparr>"

text \<open>\<open>cap_object\<close> is the object \<open>cv2.VideoCapture(0)\<close> would construct.\<close>

definition handle_capture_toggle :: "VideoCapture \<Rightarrow> Interface \<Rightarrow> store \<Rightarrow> Interface \<times> store" where
  "handle_capture_toggle cap_object i s =
     (if google_img (model i) = None
      then (i\<lparr>view := show_error_message Title_not_ready Initial_image_missing (view i)\<rparr>, s)
      else if timer_active i
      then let i1 = stop_live_feed i
           in (i1\<lparr>view := show_status_message Camera_stopped (view i1)\<rparr>, s)
      else if is_camera_open (model i) s
      then let i1 = start_live_feed i
           in (i1\<lparr>view := show_status_message Live_feed_resumed (view i1)\<rparr>, s)
      else let (c, s1) = new_capture cap_object s
           in if opened (captures s1 ! c)
              then let i1 = start_live_feed (i\<lparr>model := set_camera_object c (model i)\<rparr>)
                   in (i1\<lparr>view := show_status_message Live_feed_started (view i1)\<rparr>, s1)
              else (i\<lparr>view := set_toggle_button_text Button_start
                              (show_error_message Title_camera_error Camera_start_failed (view i))\<rparr>,
                    s1\<lparr>captures := (captures s1)[c := release (captures s1 ! c)]\<rparr>))"

definition update_frame :: "line_fn \<Rightarrow> Interface \<Rightarrow> store \<Rightarrow> error option \<times> Interface \<times> store" where
  "update_frame line i s =
     (let (frame, m1, s1) = get_frame_for_display line (model i) s;
          i1 = i\<lparr>model := m1\<rparr>
      in case frame of
           None \<Rightarrow>
             if is_live_feed i1
             then let i2 = stop_live_feed i1;
                      (m2, s2) = stop_capture (model i2) s1;
                      i3 = i2\<lparr>model := m2\<rparr>;
                      i4 = i3\<lparr>view := display_frame None (view i3)\<rparr>
                  in (None, i4\<lparr>view := show_status_message Frame_grab_failed (view i4)\<rparr>, s2)
             else (None, i1, s1)
         | Some f \<Rightarrow>
             (case cvtColor_BGR2RGB (arrays s1 ! f) of
                Inl e \<Rightarrow> (Some e, i1, s1)
              | Inr frame_rgb \<Rightarrow>
                  (None, i1\<lparr>view := display_frame (Some frame_rgb) (view i1)\<rparr>, s1)))"

text \<open>
  handle_capture_and_composite: the first test refuses the request unless the live feed
  is running. The model returns an array or raises, so the \<open>isinstance\<close> test holds
  whenever it is reached. Only \<open>ValueError\<close> is caught.
\<close>

definition handle_capture_and_composite :: "Interface \<Rightarrow> store \<Rightarrow> error option \<times> Interface \<times> store" where
  "handle_capture_and_composite i s =
     (if \<not> is_live_feed i
      then (None, i\<lparr>view := show_status_message Compose_needs_live_feed (view i)\<rparr>, s)
      else let i1 = i\<lparr>view := show_status_message Compositing (view i)\<rparr>;
               (res, m1, s1) = process_and_capture_composite_image (model i1) s;
               i2 = i1\<lparr>model := m1\<rparr>
           in case res of
                Inl (ValueError msg) \<Rightarrow>
                  (None, i2\<lparr>view := show_error_message Title_process_error msg (view i2)\<rparr>, s1)
              | Inl e \<Rightarrow> (Some e, i2, s1)
              | Inr composite_image \<Rightarrow>
                  (case cvtColor_BGR2RGB (arrays s1 ! composite_image) of
                     Inl e \<Rightarrow> (Some e, i2, s1)
                   | Inr image_rgb \<Rightarrow>
                       let i3 = i2\<lparr>view := display_frame (Some image_rgb) (view i2)\<rparr>;
                           i4 = stop_live_feed i3
                       in (None, i4\<lparr>view := show_status_message Compositing_done (view i4)\<rparr>, s1)))"

text \<open>
  \<open>chosen\<close> is the path the save dialog returned, empty when it was cancelled. Only
  \<open>ValueError\<close> is caught; any other exception of the model leaves the handler.
\<close>

definition handle_save_image ::
    "imwrite_fn \<Rightarrow> string \<Rightarrow> Interface \<Rightarrow> store \<Rightarrow> error option \<times> Interface \<times> store" where
  "handle_save_image imwrite chosen i s =
     (if get_captured_image (model i) = None
      then (None, i\<lparr>view := show_status_message Nothing_to_save_hint (view i)\<rparr>, s)
      else if chosen \<noteq> []
      then let i1 = i\<lparr>view := show_status_message (Saving chosen) (view i)\<rparr>
           in case save_image imwrite chosen (model i1) s of
                (Inr ok, s1) \<Rightarrow>
                  if ok then (None, i1\<lparr>view := show_status_message (Saved chosen) (view i1)\<rparr>, s1)
                  else (None, i1\<lparr>view := show_error_message Title_save_error File_write_failed (view i1)\<rparr>, s1)
              | (Inl (ValueError msg), s1) \<Rightarrow>
                  (None, i1\<lparr>view := show_error_message Title_save_error msg (view i1)\<rparr>, s1)
              | (Inl e, s1) \<Rightarrow> (Some e, i1, s1)
      else (None, i, s))"

section \<open>The session states of the design, read off the program's fields\<close>

text \<open>
  The program has no state variable. The four states of the design are these
  conditions on the flag, the timer and the capture handle; the composite state is
  the frozen one with a stored composite.
\<close>

definition NoCamera :: "Interface \<Rightarrow> store \<Rightarrow> bool" where
  "NoCamera i s \<longleftrightarrow> \<not> is_live_feed i \<and> \<not> timer_active i \<and> \<not> is_camera_open (model i) s"

definition Live :: "Interface \<Rightarrow> store \<Rightarrow> bool" where
  "Live i s \<longleftrightarrow> is_live_feed i \<and> timer_active i \<and> is_camera_open (model i) s"

definition Frozen :: "Interface \<Rightarrow> store \<Rightarrow> bool" where
  "Frozen i s \<longleftrightarrow> \<not> is_live_feed i \<and> \<not> timer_active i \<and> is_camera_open (model i) s"

definition Composited :: "Interface \<Rightarrow> store \<Rightarrow> bool" where
  "Composited i s \<longleftrightarrow> Frozen i s \<and> captured_composite_image (model i) \<noteq> None"

section \<open>Concrete inputs\<close>

text \<open>
  A template of two rows and three columns with four pure-white pixels, a source frame
  of one row and two columns (so that both moduli wrap), a template without any white
  pixel, a single white pixel, and a frame of shape \<open>(0, 0, 3)\<close>.
\<close>

definition template_2x3 :: ndarray where
  "template_2x3 = \<lparr>height = 2, width = 3,
     rows = [[(255, 255, 255), (1, 2, 3), (255, 255, 255)],
             [(4, 5, 6), (255, 255, 255), (255, 255, 255)]]\<rparr>"

definition frame_1x2 :: ndarray where
  "frame_1x2 = \<lparr>height = 1, width = 2, rows = [[(10, 20, 30), (40, 50, 60)]]\<rparr>"

definition template_dark :: ndarray where
  "template_dark = \<lparr>height = 1, width = 2, rows = [[(1, 2, 3), (255, 255, 254)]]\<rparr>"

definition template_white :: ndarray where
  "template_white = \<lparr>height = 1, width = 1, rows = [[(255, 255, 255)]]\<rparr>"

definition frame_empty :: ndarray where
  "frame_empty = \<lparr>height = 0, width = 0, rows = []\<rparr>"

text \<open>
  The scenario of the design's test list: a template of four rows and four columns, all
  pure white, and a source frame of two rows and two columns with four different pixels.
\<close>

definition template_4x4 :: ndarray where
  "template_4x4 = \<lparr>height = 4, width = 4,
     rows = replicate 4 (replicate 4 (255, 255, 255))\<rparr>"

definition frame_2x2 :: ndarray where
  "frame_2x2 = \<lparr>height = 2, width = 2,
     rows = [[(1, 1, 1), (2, 2, 2)],
             [(3, 3, 3), (4, 4, 4)]]\<rparr>"

definition empty_store :: store where
  "empty_store = \<lparr>arrays = [], captures = [], disk = []\<rparr>"

text \<open>A model holding array 0 as the template and array 1 as the last raw frame.\<close>

definition model_01 :: ImageProcessingModel where
  "model_01 = \<lparr>current_live_frame = Some 1, captured_composite_image = None,
                cap = None, google_img = Some 0\<rparr>"

definition store_of :: "ndarray \<Rightarrow> ndarray \<Rightarrow> store" where
  "store_of template frame = \<lparr>arrays = [template, frame], captures = [], disk = []\<rparr>"

text \<open>A drawing that repaints every pixel of the image it is given.\<close>

definition flood_line :: line_fn where
  "flood_line a pt1 pt2 color thickness = a\<lparr>rows := map (map (\<lambda>_. color)) (rows a)\<rparr>"

text \<open>
  A camera that delivers one frame and then fails, and the session driven through
  start, one poll, and the toggle that freezes it.
\<close>

definition camera_once :: VideoCapture where
  "camera_once = \<lparr>opened = True, feed = [Some frame_1x2, None]\<rparr>"

definition session_started :: "Interface \<times> store" where
  "session_started =
     (let (i, s) = init_interface (Some template_2x3) empty_store
      in handle_capture_toggle camera_once i s)"

definition session_polled :: "Interface \<times> store" where
  "session_polled =
     (let (i, s) = session_started
      in snd (update_frame flood_line i s))"

definition session_frozen :: "Interface \<times> store" where
  "session_frozen =
     (let (i, s) = session_polled
      in handle_capture_toggle camera_once i s)"

text \<open>The session after a compose request made while the live feed was running.\<close>

definition session_composited :: "Interface \<times> store" where
  "session_composited =
     (let (i, s) = session_polled
      in snd (handle_capture_and_composite i s))"

section \<open>The invariant of the two loops\<close>

text \<open>
  \<open>loop_inv T S D c\<close>: the array \<open>c\<close> being written has the template's shape, the
  coordinates in \<open>D\<close> (column, row) already hold their final pixel, and every other
  coordinate still holds the template's.
\<close>

definition loop_inv :: "ndarray \<Rightarrow> ndarray \<Rightarrow> (nat \<times> nat) set \<Rightarrow> ndarray \<Rightarrow> bool" where
  "loop_inv T S D c \<longleftrightarrow>
     height c = height T \<and> width c = width T \<and> valid_array c \<and>
     (\<forall>y<height T. \<forall>x<width T.
        rows c ! y ! x =
          (if (x, y) \<in> D \<and> rows T ! y ! x = white
           then rows S ! (y mod height S) ! (x mod width S)
           else rows T ! y ! x))"

section \<open>Lemmas about loops and arrays\<close>

lemma for_each_inv:
  assumes "distinct xs" and "P D s" and "D \<inter> set xs = {}"
    and step: "\<And>D i s. P D s \<Longrightarrow> i \<in> set xs \<Longrightarrow> i \<notin> D \<Longrightarrow> \<exists>s'. body i s = Inr s' \<and> P (insert i D) s'"
  shows "\<exists>s'. for_each xs body s = Inr s' \<and> P (D \<union> set xs) s'"
  using assms
proof (induction xs arbitrary: D s)
  case Nil
  then show ?case by simp
next
  case (Cons a xs)
  from Cons.prems have a: "a \<notin> D" "a \<notin> set xs" "distinct xs" by auto
  from Cons.prems(4)[OF Cons.prems(2), of a] a
  obtain s1 where s1: "body a s = Inr s1" "P (insert a D) s1" by auto
  have "\<exists>s'. for_each xs body s1 = Inr s' \<and> P (insert a D \<union> set xs) s'"
  proof (rule Cons.IH[OF a(3) s1(2)])
    show "insert a D \<inter> set xs = {}" using Cons.prems(3) a by auto
    fix D' i s' assume "P D' s'" "i \<in> set xs" "i \<notin> D'"
    then show "\<exists>s''. body i s' = Inr s'' \<and> P (insert i D') s''"
      using Cons.prems(4)[of D' s' i] by simp
  qed
  then show ?case using s1 by simp
qed

lemma for_each_const:
  assumes "\<And>i. i \<in> set xs \<Longrightarrow> body i s = Inr s \<or> body i s = Inl e"
  shows "for_each xs body s = (if \<exists>i\<in>set xs. body i s = Inl e then Inl e else Inr s)"
  using assms
proof (induction xs)
  case Nil
  then show ?case by simp
next
  case (Cons a xs)
  have IH: "for_each xs body s = (if \<exists>i\<in>set xs. body i s = Inl e then Inl e else Inr s)"
    using Cons by simp
  from Cons.prems[of a] consider "body a s = Inr s" | "body a s = Inl e" by auto
  then show ?case
  proof cases
    case 1
    then show ?thesis using IH by simp
  next
    case 2
    then show ?thesis by simp
  qed
qed

lemma valid_array_row: "valid_array a \<Longrightarrow> y < height a \<Longrightarrow> length (rows a ! y) = width a"
  by (simp add: valid_array_def list_all_length)

lemma nth_set2:
  "y < length rs \<Longrightarrow> x < length (rs ! y) \<Longrightarrow>
   rs[y := (rs ! y)[x := p]] ! y' ! x' = (if y' = y \<and> x' = x then p else rs ! y' ! x')"
  by (cases "y' = y"; cases "x' = x"; simp)

lemma valid_array_setrow:
  "valid_array a \<Longrightarrow> y < height a \<Longrightarrow> x < width a \<Longrightarrow>
   valid_array (a\<lparr>rows := (rows a)[y := (rows a ! y)[x := p]]\<rparr>)"
  unfolding valid_array_def list_all_length
  by (simp add: nth_list_update)

lemma replace_pixel_dark:
  assumes "x < width c" "y < height c" "rows c ! y ! x \<noteq> white"
  shows "replace_pixel S x y c = Inr c"
  using assms by (simp add: replace_pixel_def getitem_def)

lemma replace_pixel_zero:
  assumes "x < width c" "y < height c" "rows c ! y ! x = white" "height S = 0 \<or> width S = 0"
  shows "replace_pixel S x y c = Inl ZeroDivisionError"
  using assms by (auto simp add: replace_pixel_def getitem_def py_mod_def)

lemma replace_pixel_step:
  assumes ag: "loop_inv T S D c" and S: "valid_array S" "0 < height S" "0 < width S"
    and xy: "x < width T" "y < height T" "(x, y) \<notin> D"
  shows "\<exists>c'. replace_pixel S x y c = Inr c' \<and> loop_inv T S (insert (x, y) D) c'"
proof -
  from ag have sh: "height c = height T" "width c = width T" "valid_array c"
    by (simp_all add: loop_inv_def)
  from ag have px: "rows c ! y' ! x' =
      (if (x', y') \<in> D \<and> rows T ! y' ! x' = white
       then rows S ! (y' mod height S) ! (x' mod width S) else rows T ! y' ! x')"
    if "y' < height T" "x' < width T" for y' x'
    using that by (simp add: loop_inv_def)
  have cur: "rows c ! y ! x = rows T ! y ! x"
    using xy px[of y x] by simp
  show ?thesis
  proof (cases "rows T ! y ! x = white")
    case False
    then have "replace_pixel S x y c = Inr c"
      using replace_pixel_dark[of x c y S] cur sh xy by simp
    moreover have "loop_inv T S (insert (x, y) D) c"
      unfolding loop_inv_def
    proof (intro conjI allI impI)
      fix y' x' assume b: "y' < height T" "x' < width T"
      show "rows c ! y' ! x' =
        (if (x', y') \<in> insert (x, y) D \<and> rows T ! y' ! x' = white
         then rows S ! (y' mod height S) ! (x' mod width S) else rows T ! y' ! x')"
      proof (cases "(x', y') = (x, y)")
        case True
        then show ?thesis using cur False by simp
      next
        case False
        then show ?thesis using px[OF b] by auto
      qed
    qed (use sh in simp_all)
    ultimately show ?thesis by simp
  next
    case True
    let ?p = "rows S ! (y mod height S) ! (x mod width S)"
    let ?c' = "c\<lparr>rows := (rows c)[y := (rows c ! y)[x := ?p]]\<rparr>"
    have len: "length (rows c) = height T" using sh by (simp add: valid_array_def)
    have lenr: "length (rows c ! y) = width T"
      using valid_array_row[OF sh(3), of y] sh xy by simp
    have "replace_pixel S x y c = Inr ?c'"
      using cur True S sh xy
      by (simp add: replace_pixel_def py_mod_def getitem_def setitem_def)
    moreover have "loop_inv T S (insert (x, y) D) ?c'"
      unfolding loop_inv_def
    proof (intro conjI allI impI)
      show "valid_array ?c'" using valid_array_setrow[OF sh(3), of y x ?p] sh xy by simp
      fix y' x' assume b: "y' < height T" "x' < width T"
      have upd: "rows ?c' ! y' ! x' = (if y' = y \<and> x' = x then ?p else rows c ! y' ! x')"
        using nth_set2[of y "rows c" x ?p y' x'] len lenr xy by simp
      show "rows ?c' ! y' ! x' =
        (if (x', y') \<in> insert (x, y) D \<and> rows T ! y' ! x' = white
         then rows S ! (y' mod height S) ! (x' mod width S) else rows T ! y' ! x')"
      proof (cases "(x', y') = (x, y)")
        case True
        then show ?thesis using upd \<open>rows T ! y ! x = white\<close> by simp
      next
        case False
        then show ?thesis using upd px[OF b] by auto
      qed
    qed (use sh in simp_all)
    ultimately show ?thesis by blast
  qed
qed

lemma inner_loop:
  assumes ag: "loop_inv T S (X \<times> {0..<height T}) c"
    and S: "valid_array S" "0 < height S" "0 < width S"
    and x: "x < width T" "x \<notin> X"
  shows "\<exists>c'. for_each [0..<height T] (\<lambda>y. replace_pixel S x y) c = Inr c' \<and>
              loop_inv T S (insert x X \<times> {0..<height T}) c'"
proof -
  let ?A = "X \<times> {0..<height T}"
  let ?P = "\<lambda>Y c. loop_inv T S (?A \<union> {x} \<times> Y) c"
  have main: "\<exists>c'. for_each [0..<height T] (\<lambda>y. replace_pixel S x y) c = Inr c' \<and>
                    ?P ({} \<union> set [0..<height T]) c'"
  proof (rule for_each_inv[where P = ?P and D = "{}" and xs = "[0..<height T]"
          and body = "\<lambda>y. replace_pixel S x y" and s = c])
    show "distinct [0..<height T]" by simp
    show "?P {} c" using ag by simp
    show "{} \<inter> set [0..<height T] = {}" by simp
    fix Y y c0 assume h: "?P Y c0" "y \<in> set [0..<height T]" "y \<notin> Y"
    have yb: "y < height T" using h(2) by simp
    have notin: "(x, y) \<notin> ?A \<union> {x} \<times> Y" using x(2) h(3) by blast
    have eq: "insert (x, y) (?A \<union> {x} \<times> Y) = ?A \<union> {x} \<times> insert y Y" by blast
    from replace_pixel_step[OF h(1) S x(1) yb notin]
    show "\<exists>s'. replace_pixel S x y c0 = Inr s' \<and> ?P (insert y Y) s'" unfolding eq .
  qed
  have eq2: "?A \<union> {x} \<times> ({} \<union> set [0..<height T]) = insert x X \<times> {0..<height T}" by auto
  show ?thesis using main unfolding eq2 .
qed

lemma composite_loop_inv:
  assumes T: "valid_array T" and S: "valid_array S" "0 < height S" "0 < width S"
  shows "\<exists>R. composite_loop S T = Inr R \<and> loop_inv T S ({0..<width T} \<times> {0..<height T}) R"
proof -
  let ?P = "\<lambda>X c. loop_inv T S (X \<times> {0..<height T}) c"
  have main: "\<exists>c'. for_each [0..<width T] (\<lambda>x. for_each [0..<height T] (\<lambda>y. replace_pixel S x y)) T = Inr c'
                \<and> ?P ({} \<union> set [0..<width T]) c'"
  proof (rule for_each_inv[where P = ?P and D = "{}" and xs = "[0..<width T]" and s = T
        and body = "\<lambda>x. for_each [0..<height T] (\<lambda>y. replace_pixel S x y)"])
    show "distinct [0..<width T]" by simp
    show "?P {} T" using T by (simp add: loop_inv_def)
    show "{} \<inter> set [0..<width T] = {}" by simp
    fix X x c0 assume h: "?P X c0" "x \<in> set [0..<width T]" "x \<notin> X"
    have xb: "x < width T" using h(2) by simp
    show "\<exists>s'. for_each [0..<height T] (\<lambda>y. replace_pixel S x y) c0 = Inr s' \<and> ?P (insert x X) s'"
      using inner_loop[OF h(1) S xb h(3)] .
  qed
  have eq: "{} \<union> set [0..<width T] = {0..<width T}" by simp
  show ?thesis using main unfolding eq composite_loop_def .
qed

text \<open>What the finished loop means, pixel by pixel.\<close>

lemma composite_loop_pixels:
  assumes T: "valid_array T" and S: "valid_array S" "0 < height S" "0 < width S"
  shows "\<exists>R. composite_loop S T = Inr R \<and> height R = height T \<and> width R = width T \<and>
           valid_array R \<and>
           (\<forall>y<height T. \<forall>x<width T. rows R ! y ! x =
              (if rows T ! y ! x = white then rows S ! (y mod height S) ! (x mod width S)
               else rows T ! y ! x))"
proof -
  from composite_loop_inv[OF T S] obtain R where
    R: "composite_loop S T = Inr R" "loop_inv T S ({0..<width T} \<times> {0..<height T}) R" by blast
  from R(2) have "height R = height T" "width R = width T" "valid_array R"
    by (simp_all add: loop_inv_def)
  moreover from R(2) have "\<forall>y<height T. \<forall>x<width T. rows R ! y ! x =
              (if rows T ! y ! x = white then rows S ! (y mod height S) ! (x mod width S)
               else rows T ! y ! x)"
    by (simp add: loop_inv_def)
  ultimately show ?thesis using R(1) by blast
qed

text \<open>A source without rows or without columns: the first white pixel stops the loop.\<close>

lemma composite_loop_zero:
  assumes Z: "height S = 0 \<or> width S = 0"
  shows "composite_loop S T =
           (if \<exists>x<width T. \<exists>y<height T. rows T ! y ! x = white
            then Inl ZeroDivisionError else Inr T)"
proof -
  have inner: "for_each [0..<height T] (\<lambda>y. replace_pixel S x y) T =
      (if \<exists>y<height T. rows T ! y ! x = white then Inl ZeroDivisionError else Inr T)"
    if x: "x < width T" for x
  proof -
    have body: "replace_pixel S x y T =
        (if rows T ! y ! x = white then Inl ZeroDivisionError else Inr T)"
      if "y < height T" for y
      using replace_pixel_zero[OF x that _ Z] replace_pixel_dark[OF x that, of S] by simp
    have "for_each [0..<height T] (\<lambda>y. replace_pixel S x y) T =
        (if \<exists>y\<in>set [0..<height T]. replace_pixel S x y T = Inl ZeroDivisionError
         then Inl ZeroDivisionError else Inr T)"
      by (rule for_each_const) (simp add: body)
    also have "(\<exists>y\<in>set [0..<height T]. replace_pixel S x y T = Inl ZeroDivisionError)
        \<longleftrightarrow> (\<exists>y<height T. rows T ! y ! x = white)"
      using body by auto
    finally show ?thesis .
  qed
  let ?col = "\<lambda>x. for_each [0..<height T] (\<lambda>y. replace_pixel S x y)"
  have "for_each [0..<width T] ?col T =
      (if \<exists>x\<in>set [0..<width T]. ?col x T = Inl ZeroDivisionError
       then Inl ZeroDivisionError else Inr T)"
    by (rule for_each_const) (simp add: inner)
  also have "(\<exists>x\<in>set [0..<width T]. ?col x T = Inl ZeroDivisionError)
      \<longleftrightarrow> (\<exists>x<width T. \<exists>y<height T. rows T ! y ! x = white)"
    using inner by auto
  finally show ?thesis by (simp add: composite_loop_def)
qed

text \<open>A template without a white pixel is never written, whatever the source.\<close>

lemma composite_loop_dark:
  assumes D: "\<forall>y<height T. \<forall>x<width T. rows T ! y ! x \<noteq> white"
  shows "composite_loop S T = Inr T"
proof -
  have inner: "for_each [0..<height T] (\<lambda>y. replace_pixel S x y) T = Inr T"
    if x: "x < width T" for x
  proof -
    have "for_each [0..<height T] (\<lambda>y. replace_pixel S x y) T =
        (if \<exists>y\<in>set [0..<height T]. replace_pixel S x y T = Inl IndexError
         then Inl IndexError else Inr T)"
      by (rule for_each_const) (use D x in \<open>simp add: replace_pixel_dark\<close>)
    then show ?thesis using D x by (simp add: replace_pixel_dark)
  qed
  let ?col = "\<lambda>x. for_each [0..<height T] (\<lambda>y. replace_pixel S x y)"
  have "for_each [0..<width T] ?col T =
      (if \<exists>x\<in>set [0..<width T]. ?col x T = Inl IndexError then Inl IndexError else Inr T)"
    by (rule for_each_const) (simp add: inner)
  then show ?thesis using inner by (simp add: composite_loop_def)
qed

lemma process_unfold:
  assumes "current_live_frame m = Some f" "google_img m = Some g" "f < length (arrays s)"
  shows "process_and_capture_composite_image m s =
     (case composite_loop (arrays s ! f) (arrays s ! g) of
        Inl e \<Rightarrow> (Inl e, m, s\<lparr>arrays := arrays s @ [arrays s ! g]\<rparr>)
      | Inr R \<Rightarrow> (Inr (length (arrays s)),
                  m\<lparr>captured_composite_image := Some (length (arrays s))\<rparr>,
                  s\<lparr>arrays := arrays s @ [R]\<rparr>))"
  using assms
  by (simp add: process_and_capture_composite_image_def new_array_def nth_append
      split: sum.splits)

text \<open>Reading a frame never closes the device, and a released model has no open camera.\<close>

lemma read_capture_opened: "opened (snd (read_capture v)) = opened v"
  by (simp add: read_capture_def split: list.splits)

lemma not_open_after_stop_capture: "\<not> is_camera_open (fst (stop_capture m s)) (snd (stop_capture m s))"
  by (simp add: stop_capture_def is_camera_open_def split: option.splits)

text \<open>The compose operation reads two fields and the arrays, nothing else.\<close>

lemma process_depends_on:
  assumes "current_live_frame m' = current_live_frame m" "google_img m' = google_img m"
    "arrays s' = arrays s"
  shows "fst (process_and_capture_composite_image m' s') = fst (process_and_capture_composite_image m s)"
    and "arrays (snd (snd (process_and_capture_composite_image m' s')))
         = arrays (snd (snd (process_and_capture_composite_image m s)))"
    and "captured_composite_image m' = captured_composite_image m \<Longrightarrow>
         captured_composite_image (fst (snd (process_and_capture_composite_image m' s')))
         = captured_composite_image (fst (snd (process_and_capture_composite_image m s)))"
  using assms
  by (auto simp add: process_and_capture_composite_image_def new_array_def
      split: option.splits sum.splits)

section \<open>The claims\<close>

text \<open>
  C1. With a template and a last raw frame of positive height and width, the compose
  operation succeeds, and at every coordinate \<open>(x, y)\<close> where the template is exactly
  \<open>(255, 255, 255)\<close> the composite holds the source pixel of row \<open>y mod height\<close> and
  column \<open>x mod width\<close> of the frame: the frame is tiled over the template.
\<close>

theorem white_pixel_takes_tiled_source_pixel:
  assumes m: "current_live_frame m = Some f" "google_img m = Some g"
    and refs: "f < length (arrays s)" "g < length (arrays s)"
    and valid: "valid_array (arrays s ! g)" "valid_array (arrays s ! f)"
    and pos: "0 < height (arrays s ! f)" "0 < width (arrays s ! f)"
    and xy: "y < height (arrays s ! g)" "x < width (arrays s ! g)"
    and w: "rows (arrays s ! g) ! y ! x = white"
  shows "\<exists>r m' s'. process_and_capture_composite_image m s = (Inr r, m', s') \<and>
           captured_composite_image m' = Some r \<and>
           getitem (arrays s' ! r) y x =
             getitem (arrays s ! f) (y mod height (arrays s ! f)) (x mod width (arrays s ! f)) \<and>
           getitem (arrays s' ! r) y x =
             Inr (rows (arrays s ! f) ! (y mod height (arrays s ! f)) ! (x mod width (arrays s ! f)))"
proof -
  let ?T = "arrays s ! g" and ?S = "arrays s ! f"
  from composite_loop_pixels[OF valid pos] obtain R where
    R: "composite_loop ?S ?T = Inr R" "height R = height ?T" "width R = width ?T"
    and px: "\<forall>y<height ?T. \<forall>x<width ?T. rows R ! y ! x =
              (if rows ?T ! y ! x = white then rows ?S ! (y mod height ?S) ! (x mod width ?S)
               else rows ?T ! y ! x)"
    by blast
  let ?r = "length (arrays s)"
  let ?s' = "s\<lparr>arrays := arrays s @ [R]\<rparr>"
  let ?p = "rows ?S ! (y mod height ?S) ! (x mod width ?S)"
  have run: "process_and_capture_composite_image m s =
      (Inr ?r, m\<lparr>captured_composite_image := Some ?r\<rparr>, ?s')"
    using process_unfold[OF m refs(1)] R(1) by simp
  have "rows R ! y ! x = ?p" using px xy w by simp
  then have g1: "getitem (arrays ?s' ! ?r) y x = Inr ?p"
    using R(2,3) xy by (simp add: getitem_def)
  have g2: "getitem ?S (y mod height ?S) (x mod width ?S) = Inr ?p"
    using pos by (simp add: getitem_def)
  show ?thesis unfolding run using g1 g2 by simp
qed

theorem white_pixel_takes_tiled_source_pixel_witness:
  "current_live_frame model_01 = Some 1 \<and> google_img model_01 = Some 0 \<and>
   valid_array template_4x4 \<and> valid_array frame_2x2 \<and>
   rows template_4x4 ! 2 ! 3 = white \<and>
   2 mod height frame_2x2 = 0 \<and> 3 mod width frame_2x2 = 1 \<and>
   (\<exists>r m' s'. process_and_capture_composite_image model_01 (store_of template_4x4 frame_2x2)
        = (Inr r, m', s') \<and>
      captured_composite_image m' = Some r \<and>
      getitem (arrays s' ! r) 2 3 = Inr (2, 2, 2) \<and>
      getitem frame_2x2 0 1 = Inr (2, 2, 2)) \<and>
   composite_loop frame_2x2 template_4x4 =
     Inr \<lparr>height = 4, width = 4,
          rows = [[(1, 1, 1), (2, 2, 2), (1, 1, 1), (2, 2, 2)],
                  [(3, 3, 3), (4, 4, 4), (3, 3, 3), (4, 4, 4)],
                  [(1, 1, 1), (2, 2, 2), (1, 1, 1), (2, 2, 2)],
                  [(3, 3, 3), (4, 4, 4), (3, 3, 3), (4, 4, 4)]]\<rparr>"
proof -
  let ?s = "store_of template_4x4 frame_2x2"
  have a: "arrays ?s ! 0 = template_4x4" "arrays ?s ! 1 = frame_2x2"
    by (simp_all add: store_of_def)
  have h1: "current_live_frame model_01 = Some 1" "google_img model_01 = Some 0"
    by (simp_all add: model_01_def)
  have r: "(1::nat) < length (arrays ?s)" "(0::nat) < length (arrays ?s)"
    by (simp_all add: store_of_def)
  have h2: "valid_array template_4x4" "valid_array frame_2x2"
    by code_simp+
  have h3: "0 < height frame_2x2" "0 < width frame_2x2" "2 < height template_4x4"
    "3 < width template_4x4" "rows template_4x4 ! 2 ! 3 = white"
    by code_simp+
  have h4: "2 mod height frame_2x2 = 0" "3 mod width frame_2x2 = 1"
    "getitem frame_2x2 0 1 = Inr (2, 2, 2)"
    by code_simp+
  have whole: "composite_loop frame_2x2 template_4x4 =
     Inr \<lparr>height = 4, width = 4,
          rows = [[(1, 1, 1), (2, 2, 2), (1, 1, 1), (2, 2, 2)],
                  [(3, 3, 3), (4, 4, 4), (3, 3, 3), (4, 4, 4)],
                  [(1, 1, 1), (2, 2, 2), (1, 1, 1), (2, 2, 2)],
                  [(3, 3, 3), (4, 4, 4), (3, 3, 3), (4, 4, 4)]]\<rparr>"
    by code_simp
  have v: "valid_array (arrays ?s ! 0)" "valid_array (arrays ?s ! 1)"
    "0 < height (arrays ?s ! 1)" "0 < width (arrays ?s ! 1)"
    "2 < height (arrays ?s ! 0)" "3 < width (arrays ?s ! 0)"
    "rows (arrays ?s ! 0) ! 2 ! 3 = white"
    unfolding a using h2 h3 by blast+
  have "\<exists>r m' s'. process_and_capture_composite_image model_01 ?s = (Inr r, m', s') \<and>
      captured_composite_image m' = Some r \<and>
      getitem (arrays s' ! r) 2 3 = Inr (2, 2, 2) \<and>
      getitem frame_2x2 0 1 = Inr (2, 2, 2)"
    using white_pixel_takes_tiled_source_pixel[OF h1 r v] h4 unfolding a by auto
  then show ?thesis using h1 h2 h3 h4 whole by blast
qed

text \<open>
  C9. With a source frame of positive height and width, the composite has the height
  and the width of the template, not those of the source frame.
\<close>

theorem composite_has_template_shape:
  assumes m: "current_live_frame m = Some f" "google_img m = Some g"
    and refs: "f < length (arrays s)" "g < length (arrays s)"
    and valid: "valid_array (arrays s ! g)" "valid_array (arrays s ! f)"
    and pos: "0 < height (arrays s ! f)" "0 < width (arrays s ! f)"
  shows "\<exists>r m' s'. process_and_capture_composite_image m s = (Inr r, m', s') \<and>
           captured_composite_image m' = Some r \<and>
           height (arrays s' ! r) = height (arrays s ! g) \<and>
           width (arrays s' ! r) = width (arrays s ! g) \<and>
           valid_array (arrays s' ! r)"
proof -
  let ?T = "arrays s ! g" and ?S = "arrays s ! f"
  from composite_loop_pixels[OF valid pos] obtain R where
    R: "composite_loop ?S ?T = Inr R" "height R = height ?T" "width R = width ?T" "valid_array R"
    by blast
  let ?r = "length (arrays s)"
  have run: "process_and_capture_composite_image m s =
      (Inr ?r, m\<lparr>captured_composite_image := Some ?r\<rparr>, s\<lparr>arrays := arrays s @ [R]\<rparr>)"
    using process_unfold[OF m refs(1)] R(1) by simp
  show ?thesis using run R by simp
qed

theorem composite_has_template_shape_witness:
  "current_live_frame model_01 = Some 1 \<and> google_img model_01 = Some 0 \<and>
   valid_array template_2x3 \<and> valid_array frame_1x2 \<and>
   height frame_1x2 = 1 \<and> width frame_1x2 = 2 \<and>
   (\<exists>r m' s'. process_and_capture_composite_image model_01 (store_of template_2x3 frame_1x2)
        = (Inr r, m', s') \<and>
      captured_composite_image m' = Some r \<and>
      height (arrays s' ! r) = 2 \<and> width (arrays s' ! r) = 3 \<and> valid_array (arrays s' ! r))"
proof -
  let ?s = "store_of template_2x3 frame_1x2"
  have a: "arrays ?s ! 0 = template_2x3" "arrays ?s ! 1 = frame_1x2" "length (arrays ?s) = 2"
    by (simp_all add: store_of_def)
  have h1: "current_live_frame model_01 = Some 1" "google_img model_01 = Some 0"
    by (simp_all add: model_01_def)
  have h2: "valid_array template_2x3" "valid_array frame_1x2"
    by (simp_all add: valid_array_def template_2x3_def frame_1x2_def)
  have h3: "height frame_1x2 = 1" "width frame_1x2 = 2" "height template_2x3 = 2"
    "width template_2x3 = 3"
    by (simp_all add: template_2x3_def frame_1x2_def)
  from composite_has_template_shape[of model_01 1 0 ?s] a h1 h2 h3
  show ?thesis by auto
qed

text \<open>
  C2. Whenever the compose operation returns a composite, every coordinate where the
  template is not exactly \<open>(255, 255, 255)\<close> holds the template's pixel, the composite
  is a new array and the template itself is untouched. It does return one when the
  source frame has positive height and width. A template without any pure-white pixel
  yields a copy equal to the template, whatever the source frame is.
\<close>

theorem non_white_pixel_is_kept:
  assumes m: "current_live_frame m = Some f" "google_img m = Some g"
    and refs: "f < length (arrays s)" "g < length (arrays s)"
    and valid: "valid_array (arrays s ! g)" "valid_array (arrays s ! f)"
  shows "(\<forall>r m' s'. process_and_capture_composite_image m s = (Inr r, m', s') \<longrightarrow>
            r \<noteq> g \<and> arrays s' ! g = arrays s ! g \<and>
            (\<forall>y<height (arrays s ! g). \<forall>x<width (arrays s ! g).
               rows (arrays s ! g) ! y ! x \<noteq> white \<longrightarrow>
               getitem (arrays s' ! r) y x = Inr (rows (arrays s ! g) ! y ! x))) \<and>
         (0 < height (arrays s ! f) \<and> 0 < width (arrays s ! f) \<longrightarrow>
            (\<exists>r. fst (process_and_capture_composite_image m s) = Inr r)) \<and>
         ((\<forall>y<height (arrays s ! g). \<forall>x<width (arrays s ! g).
              rows (arrays s ! g) ! y ! x \<noteq> white) \<longrightarrow>
            (\<exists>r m' s'. process_and_capture_composite_image m s = (Inr r, m', s') \<and>
               captured_composite_image m' = Some r \<and> arrays s' ! r = arrays s ! g))"
proof (intro conjI allI impI)
  let ?T = "arrays s ! g" and ?S = "arrays s ! f"
  let ?n = "length (arrays s)"
  note unf = process_unfold[OF m refs(1)]
  {
    fix r m' s'
    assume run: "process_and_capture_composite_image m s = (Inr r, m', s')"
    then obtain R where R: "composite_loop ?S ?T = Inr R" "r = ?n"
      "s' = s\<lparr>arrays := arrays s @ [R]\<rparr>"
      using unf by (auto split: sum.splits)
    show "r \<noteq> g" using R(2) refs(2) by simp
    show "arrays s' ! g = arrays s ! g" using R(3) refs(2) by (simp add: nth_append)
    fix y x
    assume b: "y < height ?T" "x < width ?T" and dark: "rows ?T ! y ! x \<noteq> white"
    have "height R = height ?T \<and> width R = width ?T \<and> rows R ! y ! x = rows ?T ! y ! x"
    proof (cases "0 < height ?S \<and> 0 < width ?S")
      case True
      then show ?thesis
        using composite_loop_pixels[OF valid, of] R(1) b dark by auto
    next
      case False
      then have "height ?S = 0 \<or> width ?S = 0" by simp
      from composite_loop_zero[OF this, of ?T] R(1) have "R = ?T"
        by (simp split: if_splits)
      then show ?thesis by simp
    qed
    then show "getitem (arrays s' ! r) y x = Inr (rows ?T ! y ! x)"
      using R(2,3) b by (simp add: getitem_def)
  }
  {
    assume "0 < height ?S \<and> 0 < width ?S"
    then obtain R where "composite_loop ?S ?T = Inr R"
      using composite_loop_pixels[OF valid] by blast
    then show "\<exists>r. fst (process_and_capture_composite_image m s) = Inr r"
      using unf by simp
  }
  {
    assume "\<forall>y<height ?T. \<forall>x<width ?T. rows ?T ! y ! x \<noteq> white"
    then have "composite_loop ?S ?T = Inr ?T" by (rule composite_loop_dark)
    then show "\<exists>r m' s'. process_and_capture_composite_image m s = (Inr r, m', s') \<and>
               captured_composite_image m' = Some r \<and> arrays s' ! r = ?T"
      using unf by simp
  }
qed

theorem non_white_pixel_is_kept_witness:
  "valid_array template_2x3 \<and> valid_array frame_1x2 \<and> valid_array template_dark \<and>
   valid_array frame_empty \<and>
   rows template_2x3 ! 0 ! 1 = (1, 2, 3) \<and> (1, 2, 3) \<noteq> white \<and>
   getitem (arrays (snd (snd (process_and_capture_composite_image model_01
       (store_of template_2x3 frame_1x2)))) ! 2) 0 1 = Inr (1, 2, 3) \<and>
   (\<exists>r. fst (process_and_capture_composite_image model_01
       (store_of template_2x3 frame_1x2)) = Inr r) \<and>
   (\<exists>r m' s'. process_and_capture_composite_image model_01
       (store_of template_dark frame_empty) = (Inr r, m', s') \<and>
      captured_composite_image m' = Some r \<and> arrays s' ! r = template_dark)"
proof -
  let ?s = "store_of template_2x3 frame_1x2"
  let ?d = "store_of template_dark frame_empty"
  have a: "arrays ?s ! 0 = template_2x3" "arrays ?s ! 1 = frame_1x2" "length (arrays ?s) = 2"
    "arrays ?d ! 0 = template_dark" "arrays ?d ! 1 = frame_empty" "length (arrays ?d) = 2"
    by (simp_all add: store_of_def)
  have h1: "current_live_frame model_01 = Some 1" "google_img model_01 = Some 0"
    by (simp_all add: model_01_def)
  have h2: "valid_array template_2x3" "valid_array frame_1x2" "valid_array template_dark"
    "valid_array frame_empty"
    by (simp_all add: valid_array_def template_2x3_def frame_1x2_def template_dark_def
        frame_empty_def)
  have h3: "0 < height frame_1x2" "0 < width frame_1x2" "0 < height template_2x3"
    "1 < width template_2x3" "rows template_2x3 ! 0 ! 1 = (1, 2, 3)" "(1, 2, 3) \<noteq> white"
    by (simp_all add: template_2x3_def frame_1x2_def white_def)
  have h4: "\<forall>y<height template_dark. \<forall>x<width template_dark.
      rows template_dark ! y ! x \<noteq> white"
    by (auto simp add: template_dark_def white_def less_2_cases_iff)
  have r: "(1::nat) < length (arrays ?s)" "(0::nat) < length (arrays ?s)"
    "(1::nat) < length (arrays ?d)" "(0::nat) < length (arrays ?d)"
    using a by simp_all
  have v: "valid_array (arrays ?s ! 0)" "valid_array (arrays ?s ! 1)"
    "valid_array (arrays ?d ! 0)" "valid_array (arrays ?d ! 1)"
    using a h2 by simp_all
  note kept = non_white_pixel_is_kept[OF h1 r(1) r(2) v(1) v(2)]
  note dark = non_white_pixel_is_kept[OF h1 r(3) r(4) v(3) v(4)]
  let ?run = "process_and_capture_composite_image model_01 ?s"
  have p2: "\<exists>r. fst ?run = Inr r"
    using kept[THEN conjunct2, THEN conjunct1] h3 a by simp
  have "fst ?run = Inr 2"
    using process_unfold[OF h1 r(1)] p2 a by (auto split: sum.splits)
  then have run: "?run = (Inr 2, fst (snd ?run), snd (snd ?run))"
    by (metis prod.collapse)
  have p1: "getitem (arrays (snd (snd ?run)) ! 2) 0 1 = Inr (1, 2, 3)"
    using kept[THEN conjunct1, rule_format, OF run, THEN conjunct2, THEN conjunct2,
        rule_format, of 0 1] h3 a by simp
  have p3: "\<exists>r m' s'. process_and_capture_composite_image model_01 ?d = (Inr r, m', s') \<and>
      captured_composite_image m' = Some r \<and> arrays s' ! r = template_dark"
    using dark[THEN conjunct2, THEN conjunct2] h4 a by simp
  show ?thesis using h2 h3 p1 p2 p3 by simp
qed

text \<open>
  C3, as stated, fails. With a source frame of shape \<open>(0, 0, 3)\<close> and a template of one
  white pixel the compose operation ends in the division by zero itself, not in an
  invalid-input error; with a template that has no white pixel it does not fail at all.
\<close>

theorem zero_dimension_source_counterexample:
  "height frame_empty = 0 \<and>
   fst (process_and_capture_composite_image model_01 (store_of template_white frame_empty))
     = Inl ZeroDivisionError \<and>
   fst (process_and_capture_composite_image model_01 (store_of template_dark frame_empty))
     = Inr 2"
  by code_simp

text \<open>
  C3, amended. The compose operation never looks at the dimensions of the source frame.
  When the source frame has zero height or zero width: if the template has a pure-white
  pixel, the operation ends with ZeroDivisionError at the first one and leaves the model
  as it was; if the template has none, it succeeds with a copy of the template.
\<close>

theorem zero_dimension_source_is_not_checked:
  assumes m: "current_live_frame m = Some f" "google_img m = Some g"
    and refs: "f < length (arrays s)" "g < length (arrays s)"
    and zero: "height (arrays s ! f) = 0 \<or> width (arrays s ! f) = 0"
  shows "((\<exists>x<width (arrays s ! g). \<exists>y<height (arrays s ! g).
             rows (arrays s ! g) ! y ! x = white) \<longrightarrow>
            fst (process_and_capture_composite_image m s) = Inl ZeroDivisionError \<and>
            fst (snd (process_and_capture_composite_image m s)) = m) \<and>
         (\<not> (\<exists>x<width (arrays s ! g). \<exists>y<height (arrays s ! g).
             rows (arrays s ! g) ! y ! x = white) \<longrightarrow>
            (\<exists>r m' s'. process_and_capture_composite_image m s = (Inr r, m', s') \<and>
               captured_composite_image m' = Some r \<and> arrays s' ! r = arrays s ! g))"
  using process_unfold[OF m refs(1)] composite_loop_zero[OF zero, of "arrays s ! g"]
  by simp

theorem zero_dimension_source_is_not_checked_witness:
  "height frame_empty = 0 \<and>
   rows template_white ! 0 ! 0 = white \<and>
   fst (process_and_capture_composite_image model_01 (store_of template_white frame_empty))
     = Inl ZeroDivisionError \<and>
   fst (snd (process_and_capture_composite_image model_01 (store_of template_white frame_empty)))
     = model_01"
proof -
  let ?s = "store_of template_white frame_empty"
  have a: "arrays ?s ! 0 = template_white" "arrays ?s ! 1 = frame_empty"
    by (simp_all add: store_of_def)
  have h1: "current_live_frame model_01 = Some 1" "google_img model_01 = Some 0"
    by (simp_all add: model_01_def)
  have r: "(1::nat) < length (arrays ?s)" "(0::nat) < length (arrays ?s)"
    by (simp_all add: store_of_def)
  have z: "height (arrays ?s ! 1) = 0 \<or> width (arrays ?s ! 1) = 0"
    using a by (simp add: frame_empty_def)
  have w: "rows template_white ! 0 ! 0 = white" "0 < width template_white"
    "0 < height template_white" "height frame_empty = 0"
    by (simp_all add: template_white_def white_def frame_empty_def)
  then have ex: "\<exists>x<width (arrays ?s ! 0). \<exists>y<height (arrays ?s ! 0).
      rows (arrays ?s ! 0) ! y ! x = white"
    using a by auto
  from zero_dimension_source_is_not_checked[OF h1 r z, THEN conjunct1, rule_format, OF ex] w
  show ?thesis by simp
qed

text \<open>
  C4, as stated, fails. The session is driven to the frozen state (live feed stopped,
  camera open, a raw frame and the template present); the compose request is refused:
  no composite is stored, no array is made, and the session is not in the composite state.
\<close>

theorem frozen_compose_counterexample:
  "Frozen (fst session_frozen) (snd session_frozen) \<and>
   current_live_frame (model (fst session_frozen)) = Some 1 \<and>
   google_img (model (fst session_frozen)) = Some 0 \<and>
   captured_composite_image (model (fst session_frozen)) = None \<and>
   captured_composite_image
     (model (fst (snd (handle_capture_and_composite (fst session_frozen) (snd session_frozen)))))
     = None \<and>
   arrays (snd (snd (handle_capture_and_composite (fst session_frozen) (snd session_frozen))))
     = arrays (snd session_frozen) \<and>
   status_label
     (view (fst (snd (handle_capture_and_composite (fst session_frozen) (snd session_frozen)))))
     = Compose_needs_live_feed \<and>
   \<not> Composited
     (fst (snd (handle_capture_and_composite (fst session_frozen) (snd session_frozen))))
     (snd (snd (handle_capture_and_composite (fst session_frozen) (snd session_frozen))))"
  by code_simp

text \<open>
  C4, amended. A compose request is served only while the live feed is running. From
  the live state, when the session holds a last raw frame and a template and both have
  positive height and positive width, the compositor runs on that frame and the
  template, the composite is stored, the live feed stops and the camera handle is kept,
  which is the composite state. When the live feed is stopped, the request only sets a
  status text and changes nothing else. Nothing is said here about a live session
  whose frame or template has no rows or no columns.
\<close>

theorem compose_request_runs_only_on_live_feed:
  "(\<not> is_live_feed i \<longrightarrow>
      handle_capture_and_composite i s =
        (None, i\<lparr>view := show_status_message Compose_needs_live_feed (view i)\<rparr>, s)) \<and>
   (Live i s \<and> current_live_frame (model i) = Some f \<and> google_img (model i) = Some g \<and>
    f < length (arrays s) \<and> g < length (arrays s) \<and>
    valid_array (arrays s ! g) \<and> valid_array (arrays s ! f) \<and>
    0 < height (arrays s ! f) \<and> 0 < width (arrays s ! f) \<and>
    0 < height (arrays s ! g) \<and> 0 < width (arrays s ! g) \<longrightarrow>
      (\<exists>r i' s'. handle_capture_and_composite i s = (None, i', s') \<and>
         composite_loop (arrays s ! f) (arrays s ! g) = Inr (arrays s' ! r) \<and>
         captured_composite_image (model i') = Some r \<and>
         Composited i' s' \<and> cap (model i') = cap (model i) \<and> captures s' = captures s \<and>
         current_live_frame (model i') = Some f \<and>
         (\<exists>shown. cvtColor_BGR2RGB (arrays s' ! r) = Inr shown \<and>
                  image_label (view i') = Some shown) \<and>
         status_label (view i') = Compositing_done))"
proof (intro conjI impI)
  assume "\<not> is_live_feed i"
  then show "handle_capture_and_composite i s =
        (None, i\<lparr>view := show_status_message Compose_needs_live_feed (view i)\<rparr>, s)"
    by (simp add: handle_capture_and_composite_def)
next
  let ?T = "arrays s ! g" and ?S = "arrays s ! f"
  assume h: "Live i s \<and> current_live_frame (model i) = Some f \<and> google_img (model i) = Some g \<and>
    f < length (arrays s) \<and> g < length (arrays s) \<and>
    valid_array ?T \<and> valid_array ?S \<and> 0 < height ?S \<and> 0 < width ?S \<and>
    0 < height ?T \<and> 0 < width ?T"
  then have live: "is_live_feed i" "is_camera_open (model i) s" by (simp_all add: Live_def)
  from h composite_loop_pixels[of ?T ?S] obtain R where
    R: "composite_loop ?S ?T = Inr R" "height R = height ?T" "width R = width ?T" by blast
  let ?n = "length (arrays s)"
  let ?i1 = "i\<lparr>view := show_status_message Compositing (view i)\<rparr>"
  have run: "process_and_capture_composite_image (model ?i1) s =
      (Inr ?n, (model i)\<lparr>captured_composite_image := Some ?n\<rparr>, s\<lparr>arrays := arrays s @ [R]\<rparr>)"
    using process_unfold[of "model i" f g s] h R(1) by simp
  have cv: "cvtColor_BGR2RGB R = Inr (R\<lparr>rows := map (map (\<lambda>(b, g, r). (r, g, b))) (rows R)\<rparr>)"
    using R(2,3) h by (simp add: cvtColor_BGR2RGB_def)
  show "\<exists>r i' s'. handle_capture_and_composite i s = (None, i', s') \<and>
         composite_loop ?S ?T = Inr (arrays s' ! r) \<and>
         captured_composite_image (model i') = Some r \<and>
         Composited i' s' \<and> cap (model i') = cap (model i) \<and> captures s' = captures s \<and>
         current_live_frame (model i') = Some f \<and>
         (\<exists>shown. cvtColor_BGR2RGB (arrays s' ! r) = Inr shown \<and>
                  image_label (view i') = Some shown) \<and>
         status_label (view i') = Compositing_done"
    using live run cv R(1) h
    by (simp add: handle_capture_and_composite_def stop_live_feed_def Composited_def Frozen_def
        is_camera_open_def display_frame_def show_status_message_def set_toggle_button_text_def
        split: option.splits)
qed

theorem compose_request_runs_only_on_live_feed_witness:
  "\<not> is_live_feed (fst session_frozen) \<and>
   handle_capture_and_composite (fst session_frozen) (snd session_frozen) =
     (None, (fst session_frozen)\<lparr>view := show_status_message Compose_needs_live_feed
        (view (fst session_frozen))\<rparr>, snd session_frozen) \<and>
   Live (fst session_polled) (snd session_polled) \<and>
   (\<exists>r i' s'. handle_capture_and_composite (fst session_polled) (snd session_polled)
        = (None, i', s') \<and>
      composite_loop frame_1x2 template_2x3 = Inr (arrays s' ! r) \<and>
      captured_composite_image (model i') = Some r \<and> Composited i' s')"
proof -
  let ?i = "fst session_polled" and ?s = "snd session_polled"
  have f: "\<not> is_live_feed (fst session_frozen)" by code_simp
  have h: "Live ?i ?s" "current_live_frame (model ?i) = Some 1" "google_img (model ?i) = Some 0"
    "1 < length (arrays ?s)" "0 < length (arrays ?s)"
    "valid_array (arrays ?s ! 0)" "valid_array (arrays ?s ! 1)"
    "0 < height (arrays ?s ! 1)" "0 < width (arrays ?s ! 1)"
    "0 < height (arrays ?s ! 0)" "0 < width (arrays ?s ! 0)"
    by code_simp+
  have a: "arrays ?s ! 0 = template_2x3" "arrays ?s ! 1 = frame_1x2" by code_simp+
  note t1 = compose_request_runs_only_on_live_feed[of "fst session_frozen" "snd session_frozen",
      THEN conjunct1, rule_format, OF f]
  note t2 = compose_request_runs_only_on_live_feed[of ?i ?s 1 0, THEN conjunct2, rule_format]
  have "\<exists>r i' s'. handle_capture_and_composite ?i ?s = (None, i', s') \<and>
      composite_loop (arrays ?s ! 1) (arrays ?s ! 0) = Inr (arrays s' ! r) \<and>
      captured_composite_image (model i') = Some r \<and> Composited i' s'"
    using t2 h by blast
  then show ?thesis using f t1 h(1) unfolding a by blast
qed

text \<open>
  C5. If the template or the last raw frame is absent, the compose operation raises
  the missing-input ValueError and returns the model and the store as they were; the
  controller reports it in an error box and keeps its model, flags and store.
\<close>

theorem missing_input_changes_nothing:
  assumes "current_live_frame m = None \<or> google_img m = None"
  shows "process_and_capture_composite_image m s = (Inl (ValueError Images_not_loaded), m, s) \<and>
         (model i = m \<and> is_live_feed i \<longrightarrow>
            handle_capture_and_composite i s =
              (None,
               i\<lparr>view := show_error_message Title_process_error Images_not_loaded
                          (show_status_message Compositing (view i))\<rparr>,
               s))"
proof -
  have raise: "process_and_capture_composite_image m s
      = (Inl (ValueError Images_not_loaded), m, s)"
    using assms
    by (auto simp add: process_and_capture_composite_image_def split: option.splits)
  then show ?thesis
    by (simp add: handle_capture_and_composite_def)
qed

theorem missing_input_changes_nothing_witness:
  "current_live_frame (model (fst session_started)) = None \<and>
   is_live_feed (fst session_started) \<and>
   process_and_capture_composite_image (model (fst session_started)) (snd session_started)
     = (Inl (ValueError Images_not_loaded), model (fst session_started), snd session_started) \<and>
   handle_capture_and_composite (fst session_started) (snd session_started) =
     (None,
      (fst session_started)\<lparr>view := show_error_message Title_process_error Images_not_loaded
          (show_status_message Compositing (view (fst session_started)))\<rparr>,
      snd session_started)"
proof -
  have h: "current_live_frame (model (fst session_started)) = None"
    "is_live_feed (fst session_started)"
    by code_simp+
  then have "current_live_frame (model (fst session_started)) = None \<or>
      google_img (model (fst session_started)) = None" by simp
  from missing_input_changes_nothing[OF this, of "snd session_started" "fst session_started"] h
  show ?thesis by simp
qed

text \<open>
  C6. A successful poll stores the frame the camera delivered as the last raw frame.
  The two lines are drawn into a copy and the mirror image is a third array, so for
  every drawing primitive the stored frame is still the camera's frame afterwards, the
  preview is another array, and the arrays that existed before are unchanged. The next
  compose runs the loops on exactly that raw frame and the template.
\<close>

theorem poll_stores_raw_frame_for_compose:
  assumes op: "is_camera_open m s" and c: "cap m = Some c"
    and rd: "read_capture (captures s ! c) = (Some raw, v)"
  shows "\<exists>p r m' s'. get_frame_for_display line m s = (Some p, m', s') \<and>
           current_live_frame m' = Some r \<and> r < length (arrays s') \<and> p < length (arrays s') \<and>
           arrays s' ! r = raw \<and> p \<noteq> r \<and>
           arrays s' ! p =
             flip1 (line (line raw (int (width raw) div 2, int (height raw) div 2 - 80)
                                   (int (width raw) div 2, int (height raw) div 2 + 80) (0, 0, 255) 3)
                         (int (width raw) div 2 - 80, int (height raw) div 2)
                         (int (width raw) div 2 + 80, int (height raw) div 2) (0, 0, 255) 3) \<and>
           (\<forall>k<length (arrays s). arrays s' ! k = arrays s ! k) \<and>
           (\<forall>g<length (arrays s). google_img m = Some g \<longrightarrow>
              process_and_capture_composite_image m' s' =
                (case composite_loop raw (arrays s ! g) of
                   Inl e \<Rightarrow> (Inl e, m', s'\<lparr>arrays := arrays s' @ [arrays s ! g]\<rparr>)
                 | Inr R \<Rightarrow> (Inr (length (arrays s')),
                             m'\<lparr>captured_composite_image := Some (length (arrays s'))\<rparr>,
                             s'\<lparr>arrays := arrays s' @ [R]\<rparr>)))"
proof -
  let ?n = "length (arrays s)"
  let ?l1 = "line raw (int (width raw) div 2, int (height raw) div 2 - 80)
                      (int (width raw) div 2, int (height raw) div 2 + 80) (0, 0, 255) 3"
  let ?l2 = "line ?l1 (int (width raw) div 2 - 80, int (height raw) div 2)
                      (int (width raw) div 2 + 80, int (height raw) div 2) (0, 0, 255) 3"
  let ?m' = "m\<lparr>current_live_frame := Some ?n\<rparr>"
  let ?s' = "s\<lparr>captures := (captures s)[c := v], arrays := arrays s @ [raw, ?l2, flip1 ?l2]\<rparr>"
  have run: "get_frame_for_display line m s = (Some (?n + 2), ?m', ?s')"
    using op c rd
    by (simp add: get_frame_for_display_def new_array_def draw_line_def Let_def nth_append
        list_update_append)
  have arr: "arrays ?s' ! ?n = raw" "arrays ?s' ! (?n + 2) = flip1 ?l2"
    "length (arrays ?s') = ?n + 3"
    by (simp_all add: nth_append)
  have old: "\<forall>k<?n. arrays ?s' ! k = arrays s ! k"
    by (simp add: nth_append)
  have comp: "process_and_capture_composite_image ?m' ?s' =
                (case composite_loop raw (arrays s ! g) of
                   Inl e \<Rightarrow> (Inl e, ?m', ?s'\<lparr>arrays := arrays ?s' @ [arrays s ! g]\<rparr>)
                 | Inr R \<Rightarrow> (Inr (length (arrays ?s')),
                             ?m'\<lparr>captured_composite_image := Some (length (arrays ?s'))\<rparr>,
                             ?s'\<lparr>arrays := arrays ?s' @ [R]\<rparr>))"
    if g: "g < ?n" "google_img m = Some g" for g
  proof -
    have "current_live_frame ?m' = Some ?n" "google_img ?m' = Some g" "?n < length (arrays ?s')"
      using g by simp_all
    note unf = process_unfold[OF this]
    have e: "arrays ?s' ! ?n = raw" "arrays ?s' ! g = arrays s ! g"
      using g(1) by (simp_all add: nth_append)
    show ?thesis using unf by (simp only: e)
  qed
  show ?thesis
    unfolding run
    apply (rule exI[of _ "?n + 2"], rule exI[of _ ?n], rule exI[of _ ?m'], rule exI[of _ ?s'])
    using arr old comp by simp
qed

theorem poll_stores_raw_frame_for_compose_witness:
  "is_camera_open (model (fst session_started)) (snd session_started) \<and>
   cap (model (fst session_started)) = Some 0 \<and>
   fst (read_capture (captures (snd session_started) ! 0)) = Some frame_1x2 \<and>
   (\<exists>p r m' s'. get_frame_for_display flood_line (model (fst session_started)) (snd session_started)
        = (Some p, m', s') \<and>
      current_live_frame m' = Some r \<and> arrays s' ! r = frame_1x2 \<and> p \<noteq> r \<and>
      arrays s' ! p = \<lparr>height = 1, width = 2, rows = [[(0, 0, 255), (0, 0, 255)]]\<rparr> \<and>
      fst (process_and_capture_composite_image m' s') = Inr (length (arrays s')) \<and>
      arrays (snd (snd (process_and_capture_composite_image m' s'))) ! length (arrays s')
        = \<lparr>height = 2, width = 3,
           rows = [[(10, 20, 30), (1, 2, 3), (10, 20, 30)],
                   [(4, 5, 6), (40, 50, 60), (10, 20, 30)]]\<rparr>)"
proof -
  let ?m = "model (fst session_started)" and ?s = "snd session_started"
  let ?v = "snd (read_capture (captures ?s ! 0))"
  have h: "is_camera_open ?m ?s" "cap ?m = Some 0"
    "fst (read_capture (captures ?s ! 0)) = Some frame_1x2"
    "google_img ?m = Some 0" "0 < length (arrays ?s)" "arrays ?s ! 0 = template_2x3"
    by code_simp+
  have rd: "read_capture (captures ?s ! 0) = (Some frame_1x2, ?v)"
    using h(3) by (metis prod.collapse)
  have loop: "composite_loop frame_1x2 template_2x3 =
      Inr \<lparr>height = 2, width = 3,
           rows = [[(10, 20, 30), (1, 2, 3), (10, 20, 30)],
                   [(4, 5, 6), (40, 50, 60), (10, 20, 30)]]\<rparr>"
    by code_simp
  have pic: "flip1 (flood_line (flood_line frame_1x2
        (int (width frame_1x2) div 2, int (height frame_1x2) div 2 - 80)
        (int (width frame_1x2) div 2, int (height frame_1x2) div 2 + 80) (0, 0, 255) 3)
        (int (width frame_1x2) div 2 - 80, int (height frame_1x2) div 2)
        (int (width frame_1x2) div 2 + 80, int (height frame_1x2) div 2) (0, 0, 255) 3)
      = \<lparr>height = 1, width = 2, rows = [[(0, 0, 255), (0, 0, 255)]]\<rparr>"
    by (simp add: flip1_def flood_line_def frame_1x2_def)
  from poll_stores_raw_frame_for_compose[OF h(1) h(2) rd, of flood_line]
  obtain p r m' s' where
    g: "get_frame_for_display flood_line ?m ?s = (Some p, m', s')"
      "current_live_frame m' = Some r" "arrays s' ! r = frame_1x2" "p \<noteq> r"
      "arrays s' ! p = \<lparr>height = 1, width = 2, rows = [[(0, 0, 255), (0, 0, 255)]]\<rparr>"
    and pr: "\<forall>g<length (arrays ?s). google_img ?m = Some g \<longrightarrow>
              process_and_capture_composite_image m' s' =
                (case composite_loop frame_1x2 (arrays ?s ! g) of
                   Inl e \<Rightarrow> (Inl e, m', s'\<lparr>arrays := arrays s' @ [arrays ?s ! g]\<rparr>)
                 | Inr R \<Rightarrow> (Inr (length (arrays s')),
                             m'\<lparr>captured_composite_image := Some (length (arrays s'))\<rparr>,
                             s'\<lparr>arrays := arrays s' @ [R]\<rparr>))"
    unfolding pic by blast
  from pr[rule_format, OF h(5) h(4)] loop h(6)
  have "process_and_capture_composite_image m' s' =
      (Inr (length (arrays s')),
       m'\<lparr>captured_composite_image := Some (length (arrays s'))\<rparr>,
       s'\<lparr>arrays := arrays s' @ [\<lparr>height = 2, width = 3,
           rows = [[(10, 20, 30), (1, 2, 3), (10, 20, 30)],
                   [(4, 5, 6), (40, 50, 60), (10, 20, 30)]]\<rparr>]\<rparr>)"
    by simp
  then have "fst (process_and_capture_composite_image m' s') = Inr (length (arrays s'))"
    "arrays (snd (snd (process_and_capture_composite_image m' s'))) ! length (arrays s')
        = \<lparr>height = 2, width = 3,
           rows = [[(10, 20, 30), (1, 2, 3), (10, 20, 30)],
                   [(4, 5, 6), (40, 50, 60), (10, 20, 30)]]\<rparr>"
    by simp_all
  with g h show ?thesis by blast
qed

text \<open>
  C7. If a read fails while the session is live, update_frame stops the timer, releases
  the device and clears the handle: the session is in the no-camera state and
  is_camera_open is false. The stored frames are kept.
\<close>

theorem read_failure_releases_camera:
  assumes live: "Live i s" and c: "cap (model i) = Some c" "c < length (captures s)"
    and rd: "fst (read_capture (captures s ! c)) = None"
  shows "\<exists>i' s'. update_frame line i s = (None, i', s') \<and>
           NoCamera i' s' \<and> cap (model i') = None \<and>
           \<not> opened (captures s' ! c) \<and> \<not> is_camera_open (model i') s' \<and>
           image_label (view i') = None \<and> status_label (view i') = Frame_grab_failed \<and>
           current_live_frame (model i') = current_live_frame (model i) \<and>
           captured_composite_image (model i') = captured_composite_image (model i) \<and>
           arrays s' = arrays s"
proof -
  have op: "is_camera_open (model i) s" "is_live_feed i" using live by (simp_all add: Live_def)
  then have o: "opened (captures s ! c)" using c by (simp add: is_camera_open_def)
  obtain v where rc: "read_capture (captures s ! c) = (None, v)"
    using rd by (cases "read_capture (captures s ! c)") simp
  let ?s0 = "s\<lparr>captures := (captures s)[c := v]\<rparr>"
  have ov: "opened v" using o read_capture_opened[of "captures s ! c"] rc by simp
  have get: "get_frame_for_display line (model i) s = (None, model i, ?s0)"
    using op c rc by (simp add: get_frame_for_display_def)
  have stop: "stop_capture (model i) ?s0 =
      ((model i)\<lparr>cap := None\<rparr>, ?s0\<lparr>captures := (captures ?s0)[c := release v]\<rparr>)"
    using c ov by (simp add: stop_capture_def)
  show ?thesis
    using get stop op(2) c(2)
    by (simp add: update_frame_def stop_live_feed_def NoCamera_def is_camera_open_def
        display_frame_def show_status_message_def set_toggle_button_text_def release_def)
qed

theorem read_failure_releases_camera_witness:
  "Live (fst session_polled) (snd session_polled) \<and>
   cap (model (fst session_polled)) = Some 0 \<and>
   fst (read_capture (captures (snd session_polled) ! 0)) = None \<and>
   (\<exists>i' s'. update_frame flood_line (fst session_polled) (snd session_polled) = (None, i', s') \<and>
      NoCamera i' s' \<and> cap (model i') = None \<and> \<not> opened (captures s' ! 0) \<and>
      \<not> is_camera_open (model i') s')"
proof -
  have h: "Live (fst session_polled) (snd session_polled)"
    "cap (model (fst session_polled)) = Some 0"
    "0 < length (captures (snd session_polled))"
    "fst (read_capture (captures (snd session_polled) ! 0)) = None"
    by code_simp+
  from read_failure_releases_camera[OF h, of flood_line] h show ?thesis by blast
qed

text \<open>
  C8. With no stored composite, save_image raises the nothing-to-save ValueError and
  handle_save_image only sets a status text; in both cases the store, and with it the
  disk, is returned unchanged.
\<close>

theorem save_without_composite_writes_nothing:
  assumes "captured_composite_image (model i) = None"
  shows "save_image imwrite file_path (model i) s = (Inl (ValueError No_image_to_save), s) \<and>
         handle_save_image imwrite chosen i s =
           (None, i\<lparr>view := show_status_message Nothing_to_save_hint (view i)\<rparr>, s)"
  using assms by (simp add: save_image_def handle_save_image_def get_captured_image_def)

theorem save_without_composite_writes_nothing_witness:
  "captured_composite_image (model (fst session_frozen)) = None \<and>
   save_image (\<lambda>p a. Inr True) ''out.png'' (model (fst session_frozen)) (snd session_frozen)
     = (Inl (ValueError No_image_to_save), snd session_frozen) \<and>
   disk (snd (snd (handle_save_image (\<lambda>p a. Inr True) ''out.png'' (fst session_frozen)
     (snd session_frozen)))) = []"
proof -
  have h: "captured_composite_image (model (fst session_frozen)) = None" by code_simp
  have d: "disk (snd session_frozen) = []" by code_simp
  from save_without_composite_writes_nothing[OF h, of "\<lambda>p a. Inr True" "''out.png''"
      "snd session_frozen" "''out.png''"] h d
  show ?thesis by simp
qed

text \<open>
  C10. stop_capture changes nothing but the capture handle: the last raw frame, the
  last composite, the template, the arrays and the disk are the same, so
  get_captured_image and save_image answer as before, and the compose operation gives
  the same result as before the release; with a raw frame of positive dimensions and a
  template it succeeds although no camera is open.
\<close>

theorem stop_capture_keeps_frame_and_composite:
  assumes st: "stop_capture m s = (m', s')"
  shows "\<not> is_camera_open m' s' \<and>
         current_live_frame m' = current_live_frame m \<and>
         captured_composite_image m' = captured_composite_image m \<and>
         google_img m' = google_img m \<and>
         arrays s' = arrays s \<and> disk s' = disk s \<and>
         get_captured_image m' = get_captured_image m \<and>
         fst (save_image imwrite file_path m' s') = fst (save_image imwrite file_path m s) \<and>
         fst (process_and_capture_composite_image m' s')
           = fst (process_and_capture_composite_image m s) \<and>
         arrays (snd (snd (process_and_capture_composite_image m' s')))
           = arrays (snd (snd (process_and_capture_composite_image m s))) \<and>
         (current_live_frame m = Some f \<and> google_img m = Some g \<and> f < length (arrays s) \<and>
          valid_array (arrays s ! g) \<and> valid_array (arrays s ! f) \<and>
          0 < height (arrays s ! f) \<and> 0 < width (arrays s ! f) \<longrightarrow>
            (\<exists>r. fst (process_and_capture_composite_image m' s') = Inr r))"
proof -
  have fields: "current_live_frame m' = current_live_frame m"
    "captured_composite_image m' = captured_composite_image m"
    "google_img m' = google_img m" "arrays s' = arrays s" "disk s' = disk s"
    using st by (auto simp add: stop_capture_def split: option.splits if_splits)
  have closed: "\<not> is_camera_open m' s'"
    using not_open_after_stop_capture[of m s] st by simp
  have same: "fst (process_and_capture_composite_image m' s')
           = fst (process_and_capture_composite_image m s)"
    "arrays (snd (snd (process_and_capture_composite_image m' s')))
           = arrays (snd (snd (process_and_capture_composite_image m s)))"
    using process_depends_on(1,2)[OF fields(1) fields(3) fields(4)] by simp_all
  have save: "fst (save_image imwrite file_path m' s') = fst (save_image imwrite file_path m s)"
    using fields by (simp add: save_image_def split: option.splits sum.splits)
  have ok: "\<exists>r. fst (process_and_capture_composite_image m' s') = Inr r"
    if h: "current_live_frame m = Some f \<and> google_img m = Some g \<and> f < length (arrays s) \<and>
          valid_array (arrays s ! g) \<and> valid_array (arrays s ! f) \<and>
          0 < height (arrays s ! f) \<and> 0 < width (arrays s ! f)"
  proof -
    from h composite_loop_pixels[of "arrays s ! g" "arrays s ! f"]
    obtain R where "composite_loop (arrays s ! f) (arrays s ! g) = Inr R" by blast
    then show ?thesis using same(1) process_unfold[of m f g s] h by simp
  qed
  show ?thesis using fields closed same save ok by (simp add: get_captured_image_def)
qed

theorem stop_capture_keeps_frame_and_composite_witness:
  "is_camera_open (model (fst session_composited)) (snd session_composited) \<and>
   \<not> is_camera_open (fst (stop_capture (model (fst session_composited)) (snd session_composited)))
       (snd (stop_capture (model (fst session_composited)) (snd session_composited))) \<and>
   get_captured_image (fst (stop_capture (model (fst session_composited)) (snd session_composited)))
     = Some 4 \<and>
   current_live_frame (fst (stop_capture (model (fst session_composited)) (snd session_composited)))
     = Some 1 \<and>
   (\<exists>r. fst (process_and_capture_composite_image
       (fst (stop_capture (model (fst session_composited)) (snd session_composited)))
       (snd (stop_capture (model (fst session_composited)) (snd session_composited)))) = Inr r)"
proof -
  let ?m = "model (fst session_composited)" and ?s = "snd session_composited"
  let ?m' = "fst (stop_capture ?m ?s)" and ?s' = "snd (stop_capture ?m ?s)"
  have st: "stop_capture ?m ?s = (?m', ?s')" by simp
  have h: "is_camera_open ?m ?s" "get_captured_image ?m = Some 4" "current_live_frame ?m = Some 1"
    "google_img ?m = Some 0" "1 < length (arrays ?s)"
    "valid_array (arrays ?s ! 0)" "valid_array (arrays ?s ! 1)"
    "0 < height (arrays ?s ! 1)" "0 < width (arrays ?s ! 1)"
    by code_simp+
  note kept = stop_capture_keeps_frame_and_composite[OF st, of "\<lambda>p a. Inr True" "''out.png''" 1 0]
  have nc: "\<not> is_camera_open ?m' ?s'" using kept by blast
  have gc: "get_captured_image ?m' = get_captured_image ?m"
    "current_live_frame ?m' = current_live_frame ?m"
    using kept by blast+
  have ok: "\<exists>r. fst (process_and_capture_composite_image ?m' ?s') = Inr r"
    using kept h by blast
  show ?thesis using h(1) nc gc h(2,3) ok by simp
qed

end
